theory Spec2Isabelle
  imports Main "HOL-Library.Word"
begin

section \<open>Go values used by main.go\<close>

text \<open>
  Go's \<^verbatim>\<open>int\<close> (on a 64-bit platform) and \<^verbatim>\<open>int64\<close> are 64-bit words: \<open>+\<close> wraps,
  comparisons are signed (\<open>sint\<close>). An \<^verbatim>\<open>error\<close> is modelled by the text its
  \<^verbatim>\<open>Error()\<close> method returns; \<^verbatim>\<open>fmt.Errorf("ctx: %w", err)\<close> is then the context followed
  by the text of the wrapped error.
\<close>

type_synonym go_int = "64 word"
type_synonym int64 = "64 word"
type_synonym error = string

text \<open>A run-time panic of the Go program: the only one main.go can raise is a slice index
  out of range.\<close>

datatype panic = IndexOutOfRange

text \<open>\<^verbatim>\<open>len(xs)\<close>, as the integer it denotes (a slice has fewer than \<open>2^63\<close> elements, so
  the machine integer that Go returns is this number).\<close>

definition len :: "'a list \<Rightarrow> int" where
  "len xs = int (length xs)"

text \<open>\<^verbatim>\<open>xs[i]\<close>: Go panics when \<open>i\<close> is negative or not below the length.\<close>

definition elem_at :: "'a list \<Rightarrow> go_int \<Rightarrow> panic + 'a" where
  "elem_at xs i =
     (if 0 \<le> sint i \<and> sint i < len xs then Inr (xs ! nat (sint i)) else Inl IndexOutOfRange)"

text \<open>The verb \<^verbatim>\<open>%d\<close> of package fmt: decimal digits, with a minus sign for a negative
  number.\<close>

definition digit_char :: "nat \<Rightarrow> char" where
  "digit_char d = ''0123456789'' ! d"

fun show_nat :: "nat \<Rightarrow> string" where
  "show_nat n =
     (if n < 10 then [digit_char n] else show_nat (n div 10) @ [digit_char (n mod 10)])"

declare show_nat.simps [simp del]

definition show_int :: "int \<Rightarrow> string" where
  "show_int i = (if i < 0 then CHR ''-'' # show_nat (nat (- i)) else show_nat (nat i))"

text \<open>A line feed, Go's \<^verbatim>\<open>"\n"\<close>.\<close>

definition nl :: string where
  "nl = [CHR 0x0A]"

text \<open>
  \<^verbatim>\<open>strconv.Atoi\<close> of the Go library, after its documentation: base 10, an optional sign,
  at least one digit, a syntax error on any other character and a range error outside
  the 64-bit integers.
\<close>

definition digit_of :: "char \<Rightarrow> nat option" where
  "digit_of c =
     (let n = (of_char c :: nat) in if 48 \<le> n \<and> n \<le> 57 then Some (n - 48) else None)"

fun digits_value :: "nat \<Rightarrow> string \<Rightarrow> nat option" where
  "digits_value acc [] = Some acc"
| "digits_value acc (c # cs) =
     (case digit_of c of None \<Rightarrow> None | Some d \<Rightarrow> digits_value (10 * acc + d) cs)"

definition Atoi :: "string \<Rightarrow> error + go_int" where
  "Atoi s =
     (let (neg, ds) =
            (case s of
               [] \<Rightarrow> (False, s)
             | c # r \<Rightarrow>
                 if c = CHR ''-'' then (True, r)
                 else if c = CHR ''+'' then (False, r) else (False, s))
      in if ds = [] then Inl (''strconv.Atoi: parsing '' @ s @ '': invalid syntax'')
         else
           (case digits_value 0 ds of
              None \<Rightarrow> Inl (''strconv.Atoi: parsing '' @ s @ '': invalid syntax'')
            | Some n \<Rightarrow>
                (let v = (if neg then - int n else int n)
                 in if v < - (2 ^ 63) \<or> 2 ^ 63 \<le> v
                    then Inl (''strconv.Atoi: parsing '' @ s @ '': value out of range'')
                    else Inr (word_of_int v))))"

section \<open>The data model of main.go\<close>

text \<open>\<^verbatim>\<open>type Card struct\<close>: \<^verbatim>\<open>EaseOptions\<close> is a Go map from ease value to button text.\<close>

record Card =
  ID :: int64
  Front :: string
  Back :: string
  EaseOptions :: "go_int \<rightharpoonup> string"

text \<open>\<^verbatim>\<open>type appState int\<close> with its five constants.\<close>

datatype appState =
  stateLoading | stateDisplayingCard | stateNoCards | stateError | stateQuitting

text \<open>
  \<^verbatim>\<open>type styles struct\<close>. A \<^verbatim>\<open>lipgloss.Style\<close> is used through its \<^verbatim>\<open>Render\<close> method only,
  which belongs to the lipgloss library: a style is modelled as that function from text to
  text. The fields \<^verbatim>\<open>card\<close> and \<^verbatim>\<open>back\<close> are written \<open>card_style\<close> and \<open>back_style\<close>: \<open>card\<close> is the
  cardinality of HOL and the other name is a proof command of Isabelle.
\<close>

type_synonym Style = "string \<Rightarrow> string"

record styles =
  title :: Style
  status :: Style
  card_style :: Style
  front :: Style
  back_style :: Style
  prompt :: Style
  error :: Style
  button :: Style

text \<open>\<^verbatim>\<open>type model struct\<close>. A nil \<^verbatim>\<open>err\<close> is \<open>None\<close>.\<close>

record model =
  cards :: "Card list"
  currentCardIndex :: go_int
  showBack :: bool
  state :: appState
  err :: "error option"
  ankiConnectURL :: string
  quitting :: bool
  styles :: styles

text \<open>
  The messages \<^verbatim>\<open>Update\<close> switches on: a key press (by the text of \<^verbatim>\<open>msg.String()\<close>),
  the three message types main.go declares (\<^verbatim>\<open>errMsg\<close> is the interface \<^verbatim>\<open>error\<close>: the case
  takes any message that is an error), and \<open>otherMsg\<close> for every other message of the
  runtime (window size, quit), which reaches the final \<^verbatim>\<open>return m, nil\<close>.
\<close>

datatype msg =
  KeyMsg string
| cardsLoadedMsg "Card list"
| errMsg error
| cardAnsweredMsg int64 go_int
| otherMsg

text \<open>
  The commands \<^verbatim>\<open>Update\<close> and \<^verbatim>\<open>Init\<close> return: \<^verbatim>\<open>tea.Quit\<close>, the closure of
  \<^verbatim>\<open>m.fetchDueCardsCmd()\<close> and the closure of \<^verbatim>\<open>m.answerCardCmd(cardID, ease)\<close>. A nil
  command is \<open>None\<close>.
\<close>

datatype Cmd = tea_Quit | FetchDueCardsCmd | AnswerCardCmd int64 go_int

text \<open>The constant \<^verbatim>\<open>ankiConnectURL\<close> (the model's field has the same name in Go).\<close>

definition ankiConnectURL_const :: string where
  "ankiConnectURL_const = ''http://localhost:8765''"

text \<open>\<^verbatim>\<open>InitialModel\<close>; the styles that \<^verbatim>\<open>newStyles()\<close> builds from lipgloss are a
  parameter.\<close>

definition InitialModel :: "styles \<Rightarrow> model" where
  "InitialModel newStyles =
     \<lparr>cards = [], currentCardIndex = 0, showBack = False, state = stateLoading,
      err = None, ankiConnectURL = ankiConnectURL_const, quitting = False,
      styles = newStyles\<rparr>"

definition Init :: "model \<Rightarrow> Cmd option" where
  "Init m = Some FetchDueCardsCmd"

section \<open>Update\<close>

text \<open>The inner \<^verbatim>\<open>switch msg.String()\<close> of \<^verbatim>\<open>Update\<close> (lines 171 to 211), followed by
  the final \<^verbatim>\<open>return m, nil\<close> for the branches that fall out of the switch.\<close>

definition Update_key :: "model \<Rightarrow> string \<Rightarrow> panic + model \<times> Cmd option" where
  "Update_key m k =
     (if k = ''q'' \<or> k = ''ctrl+c'' then Inr (m\<lparr>quitting := True\<rparr>, Some tea_Quit)
      else if k = ''enter'' then
        (if state m = stateDisplayingCard then
           (if showBack m then Inr (m, None) else Inr (m\<lparr>showBack := True\<rparr>, None))
         else Inr (m, None))
      else if k = ''1'' \<or> k = ''2'' \<or> k = ''3'' \<or> k = ''4'' then
        (if state m = stateDisplayingCard \<and> showBack m then
           (case Atoi k of
              Inl e \<Rightarrow>
                Inr (m\<lparr>err := Some (''invalid ease input: '' @ e), state := stateError\<rparr>, None)
            | Inr ease \<Rightarrow>
                (if sint (currentCardIndex m) < len (cards m) then
                   (case elem_at (cards m) (currentCardIndex m) of
                      Inl p \<Rightarrow> Inl p
                    | Inr c \<Rightarrow>
                        (case EaseOptions c ease of
                           Some _ \<Rightarrow> Inr (m, Some (AnswerCardCmd (ID c) ease))
                         | None \<Rightarrow> Inr (m, None)))
                 else Inr (m, None)))
         else Inr (m, None))
      else if k = ''right'' \<or> k = ''n'' then
        (if state m = stateDisplayingCard then
           (let m1 = m\<lparr>currentCardIndex := currentCardIndex m + 1, showBack := False\<rparr>
            in if len (cards m1) \<le> sint (currentCardIndex m1)
               then Inr (m1\<lparr>state := stateNoCards\<rparr>, None)
               else Inr (m1, None))
         else Inr (m, None))
      else Inr (m, None))"

text \<open>\<^verbatim>\<open>Update\<close>: the outer type switch. \<open>Inl\<close> is a panic, \<open>Inr\<close> the new model and the
  command.\<close>

fun Update :: "model \<Rightarrow> msg \<Rightarrow> panic + model \<times> Cmd option" where
  "Update m (KeyMsg k) = Update_key m k"
| "Update m (cardsLoadedMsg loaded) =
     (if len loaded = 0 then Inr (m\<lparr>state := stateNoCards\<rparr>, None)
      else Inr (m\<lparr>cards := loaded, state := stateDisplayingCard,
                  currentCardIndex := 0, showBack := False\<rparr>, None))"
| "Update m (cardAnsweredMsg cardID ease) =
     (let m1 = m\<lparr>currentCardIndex := currentCardIndex m + 1, showBack := False\<rparr>
      in if len (cards m1) \<le> sint (currentCardIndex m1)
         then Inr (m1\<lparr>state := stateNoCards\<rparr>, None)
         else Inr (m1, None))"
| "Update m (errMsg e) = Inr (m\<lparr>err := Some e, state := stateError\<rparr>, None)"
| "Update m otherMsg = Inr (m, None)"

section \<open>View\<close>

text \<open>
  \<^verbatim>\<open>View\<close>. Two things come from outside main.go and are parameters: \<open>JoinVertical\<close>, the
  function \<^verbatim>\<open>lipgloss.JoinVertical(lipgloss.Center, ...)\<close>, and \<open>rangeOrder\<close>, the order
  in which this execution of \<^verbatim>\<open>for easeVal, easeText := range card.EaseOptions\<close> visits
  the keys of the map. Go leaves that order unspecified and does not keep it from one
  loop to the next; every key is visited once (\<open>range_order\<close> below).
\<close>

definition range_order :: "('k \<rightharpoonup> 'v) \<Rightarrow> 'k list \<Rightarrow> bool" where
  "range_order mp ks = (distinct ks \<and> set ks = dom mp)"

definition fmt_err :: "error option \<Rightarrow> string" where
  "fmt_err e = (case e of None \<Rightarrow> ''<nil>'' | Some t \<Rightarrow> t)"

definition View_buttons :: "styles \<Rightarrow> Card \<Rightarrow> go_int list \<Rightarrow> string \<Rightarrow> string" where
  "View_buttons st c rangeOrder cardContent =
     foldl (\<lambda>content easeVal.
              case EaseOptions c easeVal of
                None \<Rightarrow> content
              | Some easeText \<Rightarrow>
                  content @ '' '' @ button st (show_int (sint easeVal) @ '': '' @ easeText))
       cardContent rangeOrder"

definition View :: "(string list \<Rightarrow> string) \<Rightarrow> go_int list \<Rightarrow> model \<Rightarrow> panic + string" where
  "View JoinVertical rangeOrder m =
     (if quitting m then Inr (''Exiting Anki Study TUI...'' @ nl)
      else
        (let header = title (styles m) ''Anki Study TUI''
         in case state m of
              stateLoading \<Rightarrow>
                Inr (JoinVertical [header, '''', ''Loading cards from AnkiConnect...'' @ nl])
            | stateDisplayingCard \<Rightarrow>
                (if 0 < len (cards m) \<and> sint (currentCardIndex m) < len (cards m) then
                   (case elem_at (cards m) (currentCardIndex m) of
                      Inl p \<Rightarrow> Inl p
                    | Inr c \<Rightarrow>
                        (let stat = status (styles m)
                               (''Card '' @ show_int (sint (currentCardIndex m + 1)) @ ''/''
                                  @ show_int (len (cards m)));
                             cardContent = front (styles m) (Front c);
                             cardContent' =
                               (if showBack m then
                                  View_buttons (styles m) c rangeOrder
                                    (cardContent @ nl @ nl @ back_style (styles m) (Back c)
                                       @ nl @ nl @ prompt (styles m) ''Press 1-4 to answer:'')
                                else cardContent @ nl @ nl
                                       @ prompt (styles m) ''Press ENTER to reveal back'')
                         in Inr (JoinVertical [header, stat, card_style (styles m) cardContent'])))
                 else Inr (JoinVertical [header, '''', '''']))
            | stateNoCards \<Rightarrow>
                Inr (JoinVertical [header, '''',
                       ''No cards due today! Great job!'' @ nl
                         @ prompt (styles m) ''Press 'q' to quit.''])
            | stateError \<Rightarrow>
                Inr (JoinVertical [header, '''',
                       error (styles m) (''Error: '' @ fmt_err (err m) @ nl)
                         @ prompt (styles m) ''Press 'q' to quit.''])
            | stateQuitting \<Rightarrow> Inr (JoinVertical [header, '''', ''''])))"

section \<open>The AnkiConnect client\<close>

text \<open>The parameter structs of the three actions (\<^verbatim>\<open>Params interface{}\<close> holds one of
  them).\<close>

datatype params =
  findCardsParams string
| cardsInfoParams "int64 list"
| answerCardsParams int64 go_int

record AnkiConnectRequest =
  Action :: string
  Version :: go_int
  Params :: params

text \<open>
  \<^verbatim>\<open>type AnkiConnectResponse struct\<close>. Its fields are \<^verbatim>\<open>interface{}\<close> values decoded by
  encoding/json; \<open>'j\<close> is the type of such values. A nil \<^verbatim>\<open>Error\<close> is \<open>None\<close>.
\<close>

record 'j AnkiConnectResponse =
  Result :: 'j
  Error :: "'j option"

text \<open>\<^verbatim>\<open>type cardInfoResult struct\<close>, the nested \<^verbatim>\<open>Fields.Front.Value\<close> and
  \<^verbatim>\<open>Fields.Back.Value\<close> flattened.\<close>

record cardInfoResult =
  CardID :: int64
  Fields_Front_Value :: string
  Fields_Back_Value :: string
  Buttons :: "go_int list"

text \<open>What main.go can see of an \<^verbatim>\<open>*http.Response\<close>: the status code (which it never
  reads) and what \<^verbatim>\<open>ioutil.ReadAll(resp.Body)\<close> returns.\<close>

record http_Response =
  StatusCode :: int
  Body :: "error + string"

text \<open>
  The library calls of the client, as parameters: what the network and the Go packages
  answer is outside main.go.
  \<^item> \<open>json_Marshal\<close>, \<open>http_Post\<close>, \<open>json_Unmarshal\<close>: \<^verbatim>\<open>json.Marshal\<close> of the request,
    \<^verbatim>\<open>http.Post\<close> (URL, content type, body) and \<^verbatim>\<open>json.Unmarshal\<close> into an
    \<^verbatim>\<open>AnkiConnectResponse\<close>; \<open>Inl\<close> is the error returned.
  \<^item> \<open>fmt_v\<close>, \<open>fmt_T\<close>: the verbs \<^verbatim>\<open>%v\<close> and \<^verbatim>\<open>%T\<close> on a decoded value.
  \<^item> \<open>as_slice\<close>: the type assertion \<^verbatim>\<open>x.([]interface{})\<close>.
  \<^item> \<open>as_int64\<close>: the type assertion \<^verbatim>\<open>id.(float64)\<close> followed by \<^verbatim>\<open>int64(floatID)\<close>;
    \<open>None\<close> when the assertion fails.
  \<^item> \<open>as_cardInfoResult\<close>: \<^verbatim>\<open>json.Marshal(info)\<close> followed by \<^verbatim>\<open>json.Unmarshal\<close> into a
    \<^verbatim>\<open>cardInfoResult\<close>; \<open>None\<close> when either fails (the record is skipped, with a log line).
\<close>

record 'j world =
  json_Marshal :: "AnkiConnectRequest \<Rightarrow> error + string"
  http_Post :: "string \<Rightarrow> string \<Rightarrow> string \<Rightarrow> error + http_Response"
  json_Unmarshal :: "string \<Rightarrow> error + 'j AnkiConnectResponse"
  fmt_v :: "'j \<Rightarrow> string"
  fmt_T :: "'j \<Rightarrow> string"
  as_slice :: "'j \<Rightarrow> 'j list option"
  as_int64 :: "'j \<Rightarrow> int64 option"
  as_cardInfoResult :: "'j \<Rightarrow> cardInfoResult option"

text \<open>\<^verbatim>\<open>postAnkiConnect\<close>: \<open>Inl\<close> is the error returned, \<open>Inr\<close> the result payload.\<close>

definition postAnkiConnect :: "'j world \<Rightarrow> string \<Rightarrow> go_int \<Rightarrow> params \<Rightarrow> error + 'j" where
  "postAnkiConnect w action version ps =
     (case json_Marshal w \<lparr>Action = action, Version = version, Params = ps\<rparr> of
        Inl e \<Rightarrow> Inl (''failed to marshal request: '' @ e)
      | Inr reqBody \<Rightarrow>
          (case http_Post w ankiConnectURL_const ''application/json'' reqBody of
             Inl e \<Rightarrow>
               Inl (''failed to connect to AnkiConnect at '' @ ankiConnectURL_const @ '': '' @ e
                      @ nl @ ''Ensure Anki is running and AnkiConnect add-on is installed.'')
           | Inr resp \<Rightarrow>
               (case Body resp of
                  Inl e \<Rightarrow> Inl (''failed to read response body: '' @ e)
                | Inr body \<Rightarrow>
                    (case json_Unmarshal w body of
                       Inl e \<Rightarrow> Inl (''failed to unmarshal AnkiConnect response: '' @ e)
                     | Inr ankiResp \<Rightarrow>
                         (case Error ankiResp of
                            Some e \<Rightarrow> Inl (''AnkiConnect error: '' @ fmt_v w e)
                          | None \<Rightarrow> Inr (Result ankiResp))))))"

text \<open>The table \<^verbatim>\<open>defaultEaseLabels\<close> and the loop over \<^verbatim>\<open>ci.Buttons\<close> that fills
  \<^verbatim>\<open>easeOptions\<close> (lines 360 to 380).\<close>

definition defaultEaseLabels :: "go_int \<rightharpoonup> string" where
  "defaultEaseLabels = [1 \<mapsto> ''Again'', 2 \<mapsto> ''Hard'', 3 \<mapsto> ''Good'', 4 \<mapsto> ''Easy'']"

definition easeOptions_step :: "(go_int \<rightharpoonup> string) \<Rightarrow> go_int \<Rightarrow> (go_int \<rightharpoonup> string)" where
  "easeOptions_step easeOptions easeVal =
     (case defaultEaseLabels easeVal of
        Some label \<Rightarrow> easeOptions(easeVal \<mapsto> label)
      | None \<Rightarrow> easeOptions(easeVal \<mapsto> ''Ease '' @ show_int (sint easeVal)))"

definition easeOptions_of :: "go_int list \<Rightarrow> (go_int \<rightharpoonup> string)" where
  "easeOptions_of buttons = foldl easeOptions_step Map.empty buttons"

text \<open>The loop over the identifiers of the \<^verbatim>\<open>findCards\<close> result (lines 327 to 331).\<close>

definition cardIDs_of :: "'j world \<Rightarrow> 'j list \<Rightarrow> int64 list" where
  "cardIDs_of w ids =
     foldl (\<lambda>cardIDs x. case as_int64 w x of None \<Rightarrow> cardIDs | Some v \<Rightarrow> cardIDs @ [v]) [] ids"

text \<open>The loop over the records of the \<^verbatim>\<open>cardsInfo\<close> result (lines 348 to 388): a record
  that does not decode is skipped.\<close>

definition mkCard :: "cardInfoResult \<Rightarrow> Card" where
  "mkCard ci =
     \<lparr>ID = CardID ci, Front = Fields_Front_Value ci, Back = Fields_Back_Value ci,
      EaseOptions = easeOptions_of (Buttons ci)\<rparr>"

definition ankiCards_of :: "'j world \<Rightarrow> 'j list \<Rightarrow> Card list" where
  "ankiCards_of w infos =
     foldl (\<lambda>ankiCards info.
              case as_cardInfoResult w info of
                None \<Rightarrow> ankiCards
              | Some ci \<Rightarrow> ankiCards @ [mkCard ci])
       [] infos"

text \<open>The closure that \<^verbatim>\<open>fetchDueCardsCmd\<close> returns: the message it sends.\<close>

definition fetchDueCardsCmd :: "'j world \<Rightarrow> msg" where
  "fetchDueCardsCmd w =
     (case postAnkiConnect w ''findCards'' 6 (findCardsParams ''is:due'') of
        Inl e \<Rightarrow> errMsg (''failed to find due cards: '' @ e)
      | Inr findCardsResult \<Rightarrow>
          (case as_slice w findCardsResult of
             None \<Rightarrow>
               errMsg (''unexpected findCards result format: '' @ fmt_T w findCardsResult)
           | Some ids \<Rightarrow>
               (let cardIDs = cardIDs_of w ids
                in if len cardIDs = 0 then cardsLoadedMsg []
                   else
                     (case postAnkiConnect w ''cardsInfo'' 6 (cardsInfoParams cardIDs) of
                        Inl e \<Rightarrow> errMsg (''failed to get cards info: '' @ e)
                      | Inr cardsInfoResult \<Rightarrow>
                          (case as_slice w cardsInfoResult of
                             None \<Rightarrow>
                               errMsg (''unexpected cardsInfo result format: ''
                                         @ fmt_T w cardsInfoResult)
                           | Some infos \<Rightarrow> cardsLoadedMsg (ankiCards_of w infos))))))"

text \<open>The closure that \<^verbatim>\<open>answerCardCmd\<close> returns.\<close>

definition answerCardCmd :: "'j world \<Rightarrow> int64 \<Rightarrow> go_int \<Rightarrow> msg" where
  "answerCardCmd w cardID ease =
     (case postAnkiConnect w ''answerCards'' 6 (answerCardsParams cardID ease) of
        Inl e \<Rightarrow>
          errMsg (''failed to answer card '' @ show_int (sint cardID) @ '' with ease ''
                    @ show_int (sint ease) @ '': '' @ e)
      | Inr _ \<Rightarrow> cardAnsweredMsg cardID ease)"

section \<open>The event loop\<close>

text \<open>
  The Bubble Tea runtime calls \<^verbatim>\<open>Init\<close> once, runs every command it is handed as a task
  of its own, and feeds \<^verbatim>\<open>Update\<close> one message at a time: a key press, the message a
  finished task sends, or a message of its own. A \<open>program\<close> is the model together with
  the network tasks dispatched and not yet finished. (\<^verbatim>\<open>tea.Quit\<close> is no network task: it
  tells the runtime to stop, and a run that stops is a prefix of a run.)
\<close>

record program =
  mdl :: model
  tasks :: "Cmd list"

datatype 'j event = KeyPress string | Completes Cmd "'j world" | Other

text \<open>The message a command sends when the runtime runs it in the world \<open>w\<close>.\<close>

fun run_Cmd :: "'j world \<Rightarrow> Cmd \<Rightarrow> msg" where
  "run_Cmd w FetchDueCardsCmd = fetchDueCardsCmd w"
| "run_Cmd w (AnswerCardCmd cardID ease) = answerCardCmd w cardID ease"
| "run_Cmd w tea_Quit = otherMsg"

definition dispatched :: "Cmd option \<Rightarrow> Cmd list" where
  "dispatched c = (case c of None \<Rightarrow> [] | Some x \<Rightarrow> if x = tea_Quit then [] else [x])"

definition start :: "styles \<Rightarrow> program" where
  "start newStyles =
     \<lparr>mdl = InitialModel newStyles, tasks = dispatched (Init (InitialModel newStyles))\<rparr>"

text \<open>A panic of \<^verbatim>\<open>Update\<close> ends the program: there is no next state.\<close>

definition deliver :: "Cmd list \<Rightarrow> panic + model \<times> Cmd option \<Rightarrow> program option" where
  "deliver ts r =
     (case r of
        Inl p \<Rightarrow> None
      | Inr (m, c) \<Rightarrow> Some \<lparr>mdl = m, tasks = ts @ dispatched c\<rparr>)"

text \<open>A slice of Go has at most \<open>2^63 - 1\<close> elements: the cards a task delivers are such a
  slice.\<close>

fun is_slice :: "msg \<Rightarrow> bool" where
  "is_slice (cardsLoadedMsg loaded) = (len loaded < 2 ^ 63)"
| "is_slice _ = True"

text \<open>One turn of the loop; \<open>None\<close> when the event cannot happen (the task is not
  outstanding) or \<^verbatim>\<open>Update\<close> panics.\<close>

fun step :: "'j event \<Rightarrow> program \<Rightarrow> program option" where
  "step (KeyPress k) p = deliver (tasks p) (Update (mdl p) (KeyMsg k))"
| "step (Completes c w) p =
     (if c \<in> set (tasks p) \<and> is_slice (run_Cmd w c)
      then deliver (remove1 c (tasks p)) (Update (mdl p) (run_Cmd w c))
      else None)"
| "step Other p = deliver (tasks p) (Update (mdl p) otherMsg)"

fun run :: "'j event list \<Rightarrow> program \<Rightarrow> program option" where
  "run [] p = Some p"
| "run (e # es) p = (case step e p of None \<Rightarrow> None | Some p' \<Rightarrow> run es p')"

text \<open>What is observed of a program below: the phase, the cursor, the number of cards,
  the reveal flag and the outstanding tasks.\<close>

definition observe :: "program \<Rightarrow> appState \<times> int \<times> int \<times> bool \<times> Cmd list" where
  "observe p =
     (state (mdl p), sint (currentCardIndex (mdl p)), len (cards (mdl p)),
      showBack (mdl p), tasks p)"

subsection \<open>Concrete worlds and models, to run the definitions on\<close>

text \<open>A small type of decoded JSON values: a number is given by the \<^verbatim>\<open>int64\<close> it converts
  to, a card record by the struct it decodes to.\<close>

datatype jval = JNull | JNumber int64 | JString string | JArray "jval list" | JCard cardInfoResult

text \<open>
  A world in which AnkiConnect is reachable and answers with the given status code:
  \<open>found\<close> to \<^verbatim>\<open>findCards\<close> and \<open>info\<close> to every other action, with the given \<^verbatim>\<open>error\<close>
  field. (The request body is abbreviated to the name of the action.)
\<close>

definition answering :: "int \<Rightarrow> jval \<Rightarrow> jval \<Rightarrow> jval option \<Rightarrow> jval world" where
  "answering code found info failure =
     \<lparr>json_Marshal = (\<lambda>req. Inr (Action req)),
      http_Post = (\<lambda>url ctype body. Inr \<lparr>StatusCode = code, Body = Inr body\<rparr>),
      json_Unmarshal =
        (\<lambda>body. Inr \<lparr>Result = (if body = ''findCards'' then found else info), Error = failure\<rparr>),
      fmt_v = (\<lambda>j. case j of JString t \<Rightarrow> t | _ \<Rightarrow> ''?''),
      fmt_T = (\<lambda>j. case j of JArray _ \<Rightarrow> ''[]interface {}'' | _ \<Rightarrow> ''?''),
      as_slice = (\<lambda>j. case j of JArray xs \<Rightarrow> Some xs | _ \<Rightarrow> None),
      as_int64 = (\<lambda>j. case j of JNumber n \<Rightarrow> Some n | _ \<Rightarrow> None),
      as_cardInfoResult = (\<lambda>j. case j of JCard ci \<Rightarrow> Some ci | _ \<Rightarrow> None)\<rparr>"

text \<open>A world in which nothing listens on the port.\<close>

definition refusing :: "jval world" where
  "refusing = (answering 200 JNull JNull None)
     \<lparr>http_Post := (\<lambda>url ctype body. Inl ''connect: connection refused'')\<rparr>"

text \<open>One due card, 101, with the buttons 1 and 3; the world that serves it.\<close>

definition info101 :: cardInfoResult where
  "info101 = \<lparr>CardID = 101, Fields_Front_Value = ''front'', Fields_Back_Value = ''back'',
              Buttons = [1, 3]\<rparr>"

definition serving101 :: "jval world" where
  "serving101 = answering 200 (JArray [JNumber 101]) (JArray [JCard info101]) None"

text \<open>Styles that render a text as it is, and lines joined by line feeds.\<close>

definition plain :: styles where
  "plain = \<lparr>title = id, status = id, card_style = id, front = id, back_style = id,
            prompt = id, error = id, button = id\<rparr>"

fun join_lines :: "string list \<Rightarrow> string" where
  "join_lines [] = []"
| "join_lines [l] = l"
| "join_lines (l # ls) = l @ nl @ join_lines ls"

text \<open>The model after the cards of \<open>serving101\<close> are loaded and the back of card 101 is
  revealed.\<close>

definition revealed101 :: model where
  "revealed101 =
     (InitialModel plain)\<lparr>cards := [mkCard info101], state := stateDisplayingCard,
                            showBack := True\<rparr>"

subsection \<open>Notions the proofs use\<close>

text \<open>
  The three statements \<^verbatim>\<open>m.currentCardIndex++; m.showBack = false; if m.currentCardIndex >=
  len(m.cards) { m.state = stateNoCards }\<close>, which \<^verbatim>\<open>Update\<close> runs in two places: on the
  skip keys (lines 205 to 209) and on \<^verbatim>\<open>cardAnsweredMsg\<close> (lines 226 to 230).
\<close>

definition advance :: "model \<Rightarrow> model" where
  "advance m =
     (let m1 = m\<lparr>currentCardIndex := currentCardIndex m + 1, showBack := False\<rparr>
      in if len (cards m1) \<le> sint (currentCardIndex m1) then m1\<lparr>state := stateNoCards\<rparr> else m1)"

text \<open>The message an event hands to \<^verbatim>\<open>Update\<close>.\<close>

fun delivered :: "'j event \<Rightarrow> msg" where
  "delivered (KeyPress k) = KeyMsg k"
| "delivered (Completes c w) = run_Cmd w c"
| "delivered Other = otherMsg"

fun is_cardAnswered :: "msg \<Rightarrow> bool" where
  "is_cardAnswered (cardAnsweredMsg cardID ease) = True"
| "is_cardAnswered _ = False"

text \<open>
  What holds of every program the loop reaches: the fetch is outstanding exactly in
  phase Loading, and then alone, with no card loaded and the cursor at 0; in phase
  Reviewing the cursor points at a card; the card list is a Go slice.
\<close>

definition consistent :: "program \<Rightarrow> bool" where
  "consistent p =
     ((FetchDueCardsCmd \<in> set (tasks p) \<longrightarrow>
         tasks p = [FetchDueCardsCmd] \<and> state (mdl p) = stateLoading) \<and>
      (state (mdl p) = stateLoading \<longrightarrow>
         FetchDueCardsCmd \<in> set (tasks p) \<and> cards (mdl p) = [] \<and>
         currentCardIndex (mdl p) = 0) \<and>
      (state (mdl p) = stateDisplayingCard \<longrightarrow>
         0 \<le> sint (currentCardIndex (mdl p)) \<and>
         sint (currentCardIndex (mdl p)) < len (cards (mdl p))) \<and>
      len (cards (mdl p)) < 2 ^ 63)"

section \<open>Facts about Go values\<close>

lemma sint_succ:
  fixes i :: go_int
  assumes "sint i < 2 ^ 63 - 1"
  shows "sint (i + 1) = sint i + 1"
proof -
  have lo: "- (2 ^ 63) \<le> sint i"
    using sint_ge [of i] by simp
  have "sint (i + 1) = signed_take_bit 63 (sint i + 1)"
    by (simp add: sint_word_add)
  also have "\<dots> = sint i + 1"
    using lo assms by (intro signed_take_bit_int_eq_self) simp_all
  finally show ?thesis .
qed

section \<open>Facts about \<^verbatim>\<open>Update\<close> and the commands\<close>

lemma Update_answered: "Update m (cardAnsweredMsg cardID ease) = Inr (advance m, None)"
  by (simp add: advance_def Let_def)

lemma advance_frame:
  "cards (advance m) = cards m" "err (advance m) = err m" "quitting (advance m) = quitting m"
  "currentCardIndex (advance m) = currentCardIndex m + 1" "showBack (advance m) = False"
  "styles (advance m) = styles m"
  by (simp_all add: advance_def Let_def)

lemma advance_state:
  "state (advance m) = (if len (cards m) \<le> sint (currentCardIndex m + 1) then stateNoCards else state m)"
  by (simp add: advance_def Let_def)

lemma fetch_msg_cases:
  "(\<exists>e. fetchDueCardsCmd w = errMsg e) \<or> (\<exists>loaded. fetchDueCardsCmd w = cardsLoadedMsg loaded)"
  by (simp add: fetchDueCardsCmd_def Let_def split: sum.splits option.splits)

lemma answer_msg_cases:
  "(\<exists>e. answerCardCmd w cardID ease = errMsg e) \<or> answerCardCmd w cardID ease = cardAnsweredMsg cardID ease"
  by (simp add: answerCardCmd_def split: sum.splits)

lemma consistent_start: "consistent (start sty)"
  by (simp add: consistent_def start_def Init_def InitialModel_def dispatched_def len_def)

lemma sint_succ_reviewing:
  fixes i :: go_int
  assumes "sint i < len xs" "len xs < 2 ^ 63"
  shows "sint (i + 1) = sint i + 1"
  using assms by (intro sint_succ) simp

lemma Atoi_ease:
  "Atoi ''1'' = Inr 1" "Atoi ''2'' = Inr 2" "Atoi ''3'' = Inr 3" "Atoi ''4'' = Inr 4"
  by (simp_all add: Atoi_def digit_of_def)

lemma Update_key_quit:
  "k = ''q'' \<or> k = ''ctrl+c'' \<Longrightarrow> Update_key m k = Inr (m\<lparr>quitting := True\<rparr>, Some tea_Quit)"
  by (simp add: Update_key_def)

lemma Update_key_enter:
  "Update_key m ''enter'' =
     Inr (if state m = stateDisplayingCard \<and> \<not> showBack m then m\<lparr>showBack := True\<rparr> else m, None)"
  by (simp add: Update_key_def)

lemma Update_key_skip:
  "k = ''right'' \<or> k = ''n'' \<Longrightarrow>
   Update_key m k = Inr (if state m = stateDisplayingCard then advance m else m, None)"
  by (auto simp add: Update_key_def advance_def Let_def)

lemma ease_key_Atoi:
  "k \<in> {''1'', ''2'', ''3'', ''4''} \<Longrightarrow> Atoi k \<in> {Inr 1, Inr 2, Inr 3, Inr 4}"
  by (auto simp: Atoi_ease)

lemma Update_key_ease:
  assumes "k \<in> {''1'', ''2'', ''3'', ''4''}" "Atoi k = Inr ease"
  shows "Update_key m k =
     (if state m = stateDisplayingCard \<and> showBack m \<and> sint (currentCardIndex m) < len (cards m)
      then (case elem_at (cards m) (currentCardIndex m) of
              Inl p \<Rightarrow> Inl p
            | Inr c \<Rightarrow>
                Inr (m, case EaseOptions c ease of
                          None \<Rightarrow> None
                        | Some t \<Rightarrow> Some (AnswerCardCmd (ID c) ease)))
      else Inr (m, None))"
  using assms
  by (auto simp: Update_key_def split: sum.splits option.splits)

lemma Update_key_other:
  assumes "\<not> (k = ''q'' \<or> k = ''ctrl+c'')" "k \<noteq> ''enter''"
    "k \<notin> {''1'', ''2'', ''3'', ''4''}" "\<not> (k = ''right'' \<or> k = ''n'')"
  shows "Update_key m k = Inr (m, None)"
  using assms by (simp add: Update_key_def)

lemma Update_key_ease_cases:
  assumes "k \<in> {''1'', ''2'', ''3'', ''4''}" "Update_key m k = Inr (m', c)"
  shows "m' = m \<and> (c = None \<or> (state m = stateDisplayingCard \<and> showBack m
            \<and> (\<exists>x ease. elem_at (cards m) (currentCardIndex m) = Inr x
                  \<and> EaseOptions x ease \<noteq> None \<and> c = Some (AnswerCardCmd (ID x) ease))))"
proof -
  obtain e where e: "Atoi k = Inr e"
    using ease_key_Atoi[OF assms(1)] by auto
  let ?go = "state m = stateDisplayingCard \<and> showBack m \<and> sint (currentCardIndex m) < len (cards m)"
  note u = Update_key_ease[OF assms(1) e, of m]
  show ?thesis
  proof (cases ?go)
    case False
    have "Update_key m k = Inr (m, None)"
      by (subst u) (rule if_not_P[OF False])
    then show ?thesis using assms(2) by simp
  next
    case True
    have u': "Update_key m k =
        (case elem_at (cards m) (currentCardIndex m) of
           Inl p \<Rightarrow> Inl p
         | Inr c \<Rightarrow> Inr (m, case EaseOptions c e of None \<Rightarrow> None
                               | Some t \<Rightarrow> Some (AnswerCardCmd (ID c) e)))"
      by (subst u) (rule if_P[OF True])
    show ?thesis
    proof (cases "elem_at (cards m) (currentCardIndex m)")
      case (Inl p)
      then show ?thesis using assms(2) u' by simp
    next
      case (Inr x)
      then have r: "m' = m"
        "c = (case EaseOptions x e of None \<Rightarrow> None | Some t \<Rightarrow> Some (AnswerCardCmd (ID x) e))"
        using assms(2) u' by simp_all
      show ?thesis
      proof (cases "EaseOptions x e")
        case None
        then show ?thesis using r by simp
      next
        case (Some t)
        then have "elem_at (cards m) (currentCardIndex m) = Inr x \<and> EaseOptions x e \<noteq> None
            \<and> c = Some (AnswerCardCmd (ID x) e)"
          using r Inr by simp
        then show ?thesis using r(1) True by blast
      qed
    qed
  qed
qed

lemma Update_key_cases:
  assumes "Update_key m k = Inr (m', c)"
  shows "(m' = m\<lparr>quitting := True\<rparr> \<and> c = Some tea_Quit)
       \<or> (m' = m \<and> c = None)
       \<or> (state m = stateDisplayingCard \<and> m' = m\<lparr>showBack := True\<rparr> \<and> c = None)
       \<or> (state m = stateDisplayingCard \<and> showBack m \<and> m' = m
            \<and> (\<exists>x ease. elem_at (cards m) (currentCardIndex m) = Inr x
                  \<and> EaseOptions x ease \<noteq> None \<and> c = Some (AnswerCardCmd (ID x) ease)))
       \<or> (state m = stateDisplayingCard \<and> m' = advance m \<and> c = None)"
proof (cases "k = ''q'' \<or> k = ''ctrl+c''")
  case True
  then show ?thesis using assms by (simp add: Update_key_quit)
next
  case nquit: False
  show ?thesis
  proof (cases "k = ''enter''")
    case True
    then show ?thesis using assms by (simp add: Update_key_enter split: if_splits)
  next
    case nenter: False
    show ?thesis
    proof (cases "k \<in> {''1'', ''2'', ''3'', ''4''}")
      case True
      from Update_key_ease_cases[OF True assms] show ?thesis by blast
    next
      case nease: False
      show ?thesis
      proof (cases "k = ''right'' \<or> k = ''n''")
        case True
        then show ?thesis using assms by (simp add: Update_key_skip split: if_splits)
      next
        case False
        from Update_key_other[OF nquit nenter nease False, of m] assms show ?thesis by simp
      qed
    qed
  qed
qed

lemma consistent_advance:
  assumes "consistent p" "FetchDueCardsCmd \<notin> set ts'" "FetchDueCardsCmd \<notin> set (tasks p)"
  shows "consistent \<lparr>mdl = advance (mdl p), tasks = ts'\<rparr>"
proof -
  define m where "m = mdl p"
  have nl: "state m \<noteq> stateLoading" and sz: "len (cards m) < 2 ^ 63"
    and rv: "state m = stateDisplayingCard \<Longrightarrow>
             0 \<le> sint (currentCardIndex m) \<and> sint (currentCardIndex m) < len (cards m)"
    using assms(1,3) by (auto simp add: consistent_def m_def)
  have "state (advance m) \<noteq> stateLoading"
    using nl by (simp add: advance_state)
  moreover have "0 \<le> sint (currentCardIndex (advance m)) \<and>
      sint (currentCardIndex (advance m)) < len (cards (advance m))"
    if d: "state (advance m) = stateDisplayingCard"
  proof -
    from d have s: "state m = stateDisplayingCard" and lt: "sint (currentCardIndex m + 1) < len (cards m)"
      by (simp_all add: advance_state split: if_splits)
    from rv[OF s] sz have "sint (currentCardIndex m + 1) = sint (currentCardIndex m) + 1"
      by (intro sint_succ_reviewing[of _ "cards m"]) simp_all
    with rv[OF s] lt show ?thesis by (simp add: advance_frame)
  qed
  ultimately show ?thesis
    using assms(2) sz by (simp add: consistent_def advance_frame m_def)
qed

lemma consistent_key:
  assumes "consistent p" "step (KeyPress k) p = Some p'"
  shows "consistent p'"
proof -
  obtain m' c where u: "Update_key (mdl p) k = Inr (m', c)"
    and p': "p' = \<lparr>mdl = m', tasks = tasks p @ dispatched c\<rparr>"
    using assms(2) by (auto simp: deliver_def split: sum.splits)
  from Update_key_cases[OF u] show ?thesis
  proof (elim disjE conjE exE)
    assume "m' = advance (mdl p)" "c = None" "state (mdl p) = stateDisplayingCard"
    moreover from this assms(1) have "FetchDueCardsCmd \<notin> set (tasks p)"
      by (auto simp: consistent_def)
    ultimately show ?thesis
      using consistent_advance[OF assms(1), of "tasks p"] p'
      by (simp add: dispatched_def)
  next
    assume "m' = (mdl p)\<lparr>quitting := True\<rparr>" "c = Some tea_Quit"
    then show ?thesis using assms(1) p' by (simp add: consistent_def dispatched_def)
  next
    assume "m' = mdl p" "c = None"
    then show ?thesis using assms(1) p' by (simp add: consistent_def dispatched_def)
  next
    assume "m' = (mdl p)\<lparr>showBack := True\<rparr>" "c = None"
    then show ?thesis using assms(1) p' by (simp add: consistent_def dispatched_def)
  next
    fix x ease
    assume "m' = mdl p" "c = Some (AnswerCardCmd (ID x) ease)" "state (mdl p) = stateDisplayingCard"
    then show ?thesis using assms(1) p' by (auto simp add: consistent_def dispatched_def)
  qed
qed

lemma consistent_completes:
  assumes "consistent p" "step (Completes c w) p = Some p'"
  shows "consistent p'"
proof -
  have mem: "c \<in> set (tasks p)" and sl: "is_slice (run_Cmd w c)"
    and d: "deliver (remove1 c (tasks p)) (Update (mdl p) (run_Cmd w c)) = Some p'"
    using assms(2) by (simp_all split: if_splits)
  show ?thesis
  proof (cases c)
    case tea_Quit
    then have "p' = \<lparr>mdl = mdl p, tasks = remove1 c (tasks p)\<rparr>"
      using d by (simp add: deliver_def dispatched_def)
    moreover have "FetchDueCardsCmd \<notin> set (tasks p)"
      using mem tea_Quit assms(1) by (auto simp: consistent_def)
    moreover then have "FetchDueCardsCmd \<notin> set (remove1 c (tasks p))"
      by (metis notin_set_remove1)
    ultimately show ?thesis using assms(1) by (simp add: consistent_def)
  next
    case FetchDueCardsCmd
    with assms(1) mem have t: "tasks p = [FetchDueCardsCmd]" and l: "state (mdl p) = stateLoading"
      by (simp_all add: consistent_def)
    from fetch_msg_cases[of w] show ?thesis
    proof (elim disjE exE)
      fix e assume "fetchDueCardsCmd w = errMsg e"
      then have "p' = \<lparr>mdl = (mdl p)\<lparr>err := Some e, state := stateError\<rparr>, tasks = []\<rparr>"
        using d FetchDueCardsCmd t by (simp add: deliver_def dispatched_def)
      then show ?thesis using assms(1) by (simp add: consistent_def)
    next
      fix loaded assume f: "fetchDueCardsCmd w = cardsLoadedMsg loaded"
      then have sz: "len loaded < 2 ^ 63" using sl FetchDueCardsCmd by simp
      show ?thesis
      proof (cases "len loaded = 0")
        case True
        then have "p' = \<lparr>mdl = (mdl p)\<lparr>state := stateNoCards\<rparr>, tasks = []\<rparr>"
          using d FetchDueCardsCmd t f by (simp add: deliver_def dispatched_def)
        then show ?thesis using assms(1) by (simp add: consistent_def)
      next
        case False
        then have "p' = \<lparr>mdl = (mdl p)\<lparr>cards := loaded, state := stateDisplayingCard,
                      currentCardIndex := 0, showBack := False\<rparr>, tasks = []\<rparr>"
          using d FetchDueCardsCmd t f by (simp add: deliver_def dispatched_def)
        moreover have "0 < len loaded" using False by (simp add: len_def)
        ultimately show ?thesis using sz by (simp add: consistent_def)
      qed
    qed
  next
    case (AnswerCardCmd cardID ease)
    with assms(1) mem have nf: "FetchDueCardsCmd \<notin> set (tasks p)"
      by (auto simp: consistent_def)
    then have nf': "FetchDueCardsCmd \<notin> set (remove1 c (tasks p))"
      by (metis notin_set_remove1)
    from answer_msg_cases[of w cardID ease] show ?thesis
    proof (elim disjE exE)
      fix e assume "answerCardCmd w cardID ease = errMsg e"
      then have "p' = \<lparr>mdl = (mdl p)\<lparr>err := Some e, state := stateError\<rparr>,
                       tasks = remove1 c (tasks p)\<rparr>"
        using d AnswerCardCmd by (simp add: deliver_def dispatched_def)
      then show ?thesis using assms(1) nf nf' by (simp add: consistent_def)
    next
      assume "answerCardCmd w cardID ease = cardAnsweredMsg cardID ease"
      then have "p' = \<lparr>mdl = advance (mdl p), tasks = remove1 c (tasks p)\<rparr>"
        using d AnswerCardCmd by (simp add: deliver_def dispatched_def Update_answered del: Update.simps)
      then show ?thesis
        using consistent_advance[OF assms(1) nf' nf] by simp
    qed
  qed
qed

lemma consistent_step:
  assumes "consistent p" "step e p = Some p'"
  shows "consistent p'"
proof (cases e)
  case (KeyPress k) then show ?thesis using assms consistent_key by blast
next
  case (Completes c w) then show ?thesis using assms consistent_completes by blast
next
  case Other
  then have "p' = p" using assms(2) by (cases p) (simp add: deliver_def dispatched_def)
  then show ?thesis using assms(1) by simp
qed

lemma consistent_run:
  "consistent p \<Longrightarrow> run evs p = Some p' \<Longrightarrow> consistent p'"
proof (induction evs arbitrary: p)
  case Nil
  then show ?case by simp
next
  case (Cons e es)
  then obtain q where "step e p = Some q" "run es q = Some p'"
    by (auto split: option.splits)
  then show ?case using Cons.IH Cons.prems(1) consistent_step by blast
qed

lemma reachable_consistent:
  "run evs (start sty) = Some p \<Longrightarrow> consistent p"
  using consistent_run consistent_start by blast

section \<open>The properties of the specification\<close>

subsection \<open>Runs on concrete inputs\<close>

lemma fetch_serving101: "fetchDueCardsCmd serving101 = cardsLoadedMsg [mkCard info101]"
  by (simp add: fetchDueCardsCmd_def postAnkiConnect_def serving101_def answering_def
      cardIDs_of_def ankiCards_of_def len_def)

lemma answer_serving101: "answerCardCmd serving101 cardID ease = cardAnsweredMsg cardID ease"
  by (simp add: answerCardCmd_def postAnkiConnect_def serving101_def answering_def)

lemma answer_refusing: "\<exists>e. answerCardCmd refusing cardID ease = errMsg e"
  by (simp add: answerCardCmd_def postAnkiConnect_def refusing_def answering_def)

lemma card101:
  "ID (mkCard info101) = 101"
  "EaseOptions (mkCard info101) 1 = Some ''Again''"
  "EaseOptions (mkCard info101) 2 = None"
  "EaseOptions (mkCard info101) 3 = Some ''Good''"
  "Front (mkCard info101) = ''front''" "Back (mkCard info101) = ''back''"
  by (simp_all add: mkCard_def info101_def easeOptions_of_def easeOptions_step_def
      defaultEaseLabels_def)

lemma revealed101_fields:
  "state revealed101 = stateDisplayingCard" "showBack revealed101"
  "cards revealed101 = [mkCard info101]" "currentCardIndex revealed101 = 0"
  "quitting revealed101 = False" "styles revealed101 = plain"
  by (simp_all add: revealed101_def InitialModel_def)

lemma run_revealed101:
  "run [Completes FetchDueCardsCmd serving101, KeyPress ''enter''] (start plain)
     = Some \<lparr>mdl = revealed101, tasks = []\<rparr>"
  by (simp add: fetch_serving101 start_def Init_def InitialModel_def deliver_def dispatched_def
      len_def Update_key_enter revealed101_def)

subsection \<open>Ease keys\<close>

text \<open>
  C8. In phase Reviewing with the back revealed, an ease key from 1 to 4 whose value is
  no key of the current card's \<^verbatim>\<open>EaseOptions\<close> leaves the model as it is and returns
  no command.
\<close>

theorem illegal_ease_key_ignored:
  assumes "state m = stateDisplayingCard" "showBack m"
    and "k \<in> {''1'', ''2'', ''3'', ''4''}" "Atoi k = Inr ease"
    and "elem_at (cards m) (currentCardIndex m) = Inr c" "EaseOptions c ease = None"
  shows "Update m (KeyMsg k) = Inr (m, None)"
  using assms by (simp add: Update_key_ease[OF assms(3,4)])

theorem illegal_ease_key_ignored_witness:
  "state revealed101 = stateDisplayingCard \<and> showBack revealed101 \<and> Atoi ''2'' = Inr 2
   \<and> elem_at (cards revealed101) (currentCardIndex revealed101) = Inr (mkCard info101)
   \<and> EaseOptions (mkCard info101) 2 = None
   \<and> Update revealed101 (KeyMsg ''2'') = Inr (revealed101, None)"
  using illegal_ease_key_ignored[of revealed101 "''2''" 2 "mkCard info101"]
  by (simp add: revealed101_fields Atoi_ease elem_at_def len_def card101)

subsection \<open>Answer messages outside phase Reviewing\<close>

text \<open>
  C2. The claim fails on the code: \<^verbatim>\<open>Update\<close> runs the \<^verbatim>\<open>cardAnsweredMsg\<close> case in every
  phase. Card 101 is revealed and the key 3 is pressed twice; the first answer call fails,
  which puts the program in phase Failed; the second succeeds, and its message moves the
  cursor from 0 to 1 and the phase from Failed to Exhausted.
\<close>

theorem answered_outside_reviewing_not_ignored:
  "map_option observe
     (run [Completes FetchDueCardsCmd serving101, KeyPress ''enter'', KeyPress ''3'',
           KeyPress ''3'', Completes (AnswerCardCmd 101 3) refusing] (start plain))
     = Some (stateError, 0, 1, True, [AnswerCardCmd 101 3])
   \<and> map_option observe
     (run [Completes FetchDueCardsCmd serving101, KeyPress ''enter'', KeyPress ''3'',
           KeyPress ''3'', Completes (AnswerCardCmd 101 3) refusing,
           Completes (AnswerCardCmd 101 3) serving101] (start plain))
     = Some (stateNoCards, 1, 1, False, [])"
proof -
  obtain e where e: "answerCardCmd refusing 101 3 = errMsg e"
    using answer_refusing by blast
  have k3: "Update_key m ''3'' =
      (if state m = stateDisplayingCard \<and> showBack m \<and> sint (currentCardIndex m) < len (cards m)
       then (case elem_at (cards m) (currentCardIndex m) of
               Inl p \<Rightarrow> Inl p
             | Inr c \<Rightarrow> Inr (m, case EaseOptions c 3 of None \<Rightarrow> None
                                   | Some t \<Rightarrow> Some (AnswerCardCmd (ID c) 3)))
       else Inr (m, None))" for m
    by (rule Update_key_ease) (simp_all add: Atoi_ease)
  show ?thesis
    by (simp add: fetch_serving101 answer_serving101 e k3 card101 start_def Init_def
        InitialModel_def deliver_def dispatched_def len_def elem_at_def Update_key_enter
        observe_def)
qed

subsection \<open>Ease labels\<close>

lemma easeOptions_step_apply:
  "easeOptions_step mp v x =
     (if x = v
      then Some (if v = 1 then ''Again'' else if v = 2 then ''Hard'' else if v = 3 then ''Good''
                 else if v = 4 then ''Easy'' else ''Ease '' @ show_int (sint v))
      else mp x)"
  by (simp add: easeOptions_step_def defaultEaseLabels_def)

lemma easeOptions_foldl:
  "foldl easeOptions_step mp buttons x =
     (if x \<in> set buttons
      then Some (if x = 1 then ''Again'' else if x = 2 then ''Hard'' else if x = 3 then ''Good''
                 else if x = 4 then ''Easy'' else ''Ease '' @ show_int (sint x))
      else mp x)"
proof (induction buttons arbitrary: mp)
  case Nil
  then show ?case by simp
next
  case (Cons v vs)
  show ?case
    by (simp only: foldl_Cons Cons.IH easeOptions_step_apply[of mp v x] set_simps insert_iff
        split: if_splits) simp
qed

lemma ankiCards_foldl:
  "set (foldl (\<lambda>ankiCards info.
                 case as_cardInfoResult w info of
                   None \<Rightarrow> ankiCards
                 | Some ci \<Rightarrow> ankiCards @ [mkCard ci]) acc infos)
     = set acc \<union> {mkCard ci | ci info. info \<in> set infos \<and> as_cardInfoResult w info = Some ci}"
proof (induction infos arbitrary: acc)
  case Nil
  then show ?case by simp
next
  case (Cons j js)
  show ?case
  proof (cases "as_cardInfoResult w j")
    case None
    then show ?thesis by (auto simp add: Cons.IH)
  next
    case (Some ci)
    then show ?thesis by (auto simp add: Cons.IH)
  qed
qed

text \<open>
  C6. For a record \<open>ci\<close> that the loop over the \<^verbatim>\<open>cardsInfo\<close> result decodes, the card built
  from it is among the loaded cards, and for every button code \<open>N\<close> of the record its
  \<^verbatim>\<open>EaseOptions\<close> hold the label Again for 1, Hard for 2, Good for 3, Easy for 4 and
  "Ease N" for any other code.
\<close>

theorem ease_labels:
  assumes "info \<in> set infos" "as_cardInfoResult w info = Some ci" "N \<in> set (Buttons ci)"
  shows "mkCard ci \<in> set (ankiCards_of w infos) \<and>
         EaseOptions (mkCard ci) N =
           Some (if N = 1 then ''Again'' else if N = 2 then ''Hard'' else if N = 3 then ''Good''
                 else if N = 4 then ''Easy'' else ''Ease '' @ show_int (sint N))"
proof
  show "mkCard ci \<in> set (ankiCards_of w infos)"
    unfolding ankiCards_of_def ankiCards_foldl using assms(1,2) by blast
  show "EaseOptions (mkCard ci) N =
           Some (if N = 1 then ''Again'' else if N = 2 then ''Hard'' else if N = 3 then ''Good''
                 else if N = 4 then ''Easy'' else ''Ease '' @ show_int (sint N))"
    using assms(3) by (simp add: mkCard_def easeOptions_of_def easeOptions_foldl)
qed

theorem ease_labels_witness:
  "mkCard (info101\<lparr>Buttons := [3, 7]\<rparr>)
     \<in> set (ankiCards_of serving101 [JNull, JCard (info101\<lparr>Buttons := [3, 7]\<rparr>)])
   \<and> EaseOptions (mkCard (info101\<lparr>Buttons := [3, 7]\<rparr>)) 3 = Some ''Good''
   \<and> EaseOptions (mkCard (info101\<lparr>Buttons := [3, 7]\<rparr>)) 7 = Some ''Ease 7''"
  using ease_labels[of "JCard (info101\<lparr>Buttons := [3, 7]\<rparr>)"
      "[JNull, JCard (info101\<lparr>Buttons := [3, 7]\<rparr>)]" serving101 "info101\<lparr>Buttons := [3, 7]\<rparr>" 3]
    ease_labels[of "JCard (info101\<lparr>Buttons := [3, 7]\<rparr>)"
      "[JNull, JCard (info101\<lparr>Buttons := [3, 7]\<rparr>)]" serving101 "info101\<lparr>Buttons := [3, 7]\<rparr>" 7]
  by (simp add: serving101_def answering_def show_int_def show_nat.simps digit_char_def)

subsection \<open>Rendering of the buttons, and revealing twice\<close>

lemma View_revealed101:
  "View join_lines rangeOrder revealed101 =
     Inr (''Anki Study TUI'' @ nl @ ''Card 1/1'' @ nl
            @ View_buttons plain (mkCard info101) rangeOrder
                (''front'' @ nl @ nl @ ''back'' @ nl @ nl @ ''Press 1-4 to answer:''))"
  by (simp add: View_def revealed101_fields elem_at_def len_def card101 plain_def
      show_int_def show_nat.simps digit_char_def)

lemma range_orders101:
  "range_order (EaseOptions (mkCard info101)) [1, 3]"
  "range_order (EaseOptions (mkCard info101)) [3, 1]"
  by (auto simp add: range_order_def mkCard_def info101_def easeOptions_of_def
      easeOptions_step_def defaultEaseLabels_def)

text \<open>
  C5. The claim fails on the code: the buttons are written in the order in which
  \<^verbatim>\<open>range card.EaseOptions\<close> visits the map, which Go does not fix. For card 101 (buttons
  1 and 3) the two visiting orders give two different frames of the same model, and the
  second lists 3 before 1.
\<close>

theorem View_follows_range_order:
  "range_order (EaseOptions (mkCard info101)) [1, 3]
   \<and> range_order (EaseOptions (mkCard info101)) [3, 1]
   \<and> View join_lines [1, 3] revealed101 =
       Inr (''Anki Study TUI'' @ nl @ ''Card 1/1'' @ nl @ ''front'' @ nl @ nl @ ''back'' @ nl @ nl
              @ ''Press 1-4 to answer: 1: Again 3: Good'')
   \<and> View join_lines [3, 1] revealed101 =
       Inr (''Anki Study TUI'' @ nl @ ''Card 1/1'' @ nl @ ''front'' @ nl @ nl @ ''back'' @ nl @ nl
              @ ''Press 1-4 to answer: 3: Good 1: Again'')"
  by (simp add: range_orders101 View_revealed101 View_buttons_def card101 plain_def
      show_int_def show_nat.simps digit_char_def)

text \<open>
  C9. The claim fails on the code in its part on the rendered view, by the defect of C5.
  From the model with card 101 loaded, one press of enter and two presses of enter reach
  the same model, \<open>revealed101\<close>; but \<^verbatim>\<open>View\<close> is run anew after each message, and its
  two runs can visit the map in different orders, which gives different frames.
\<close>

theorem reveal_twice_view_differs:
  "run [Completes FetchDueCardsCmd serving101, KeyPress ''enter''] (start plain)
     = Some \<lparr>mdl = revealed101, tasks = []\<rparr>
   \<and> run [Completes FetchDueCardsCmd serving101, KeyPress ''enter'', KeyPress ''enter'']
       (start plain) = Some \<lparr>mdl = revealed101, tasks = []\<rparr>
   \<and> range_order (EaseOptions (mkCard info101)) [1, 3]
   \<and> range_order (EaseOptions (mkCard info101)) [3, 1]
   \<and> View join_lines [1, 3] revealed101 \<noteq> View join_lines [3, 1] revealed101"
proof -
  have "run [Completes FetchDueCardsCmd serving101, KeyPress ''enter'', KeyPress ''enter'']
       (start plain) = Some \<lparr>mdl = revealed101, tasks = []\<rparr>"
    by (simp add: fetch_serving101 start_def Init_def InitialModel_def deliver_def dispatched_def
      len_def Update_key_enter revealed101_def)
  moreover have "View join_lines [1, 3] revealed101 \<noteq> View join_lines [3, 1] revealed101"
    by (simp add: View_revealed101 View_buttons_def card101 plain_def
      show_int_def show_nat.simps digit_char_def)
  ultimately show ?thesis
    using run_revealed101 range_orders101 by simp
qed

text \<open>
  The part of C9 on the model holds: in phase Reviewing, enter sets the reveal flag and
  returns no command, and a second enter changes nothing and returns no command.
\<close>

theorem reveal_idempotent:
  assumes "state m = stateDisplayingCard"
  shows "Update m (KeyMsg ''enter'') = Inr (m\<lparr>showBack := True\<rparr>, None)
       \<and> Update (m\<lparr>showBack := True\<rparr>) (KeyMsg ''enter'') = Inr (m\<lparr>showBack := True\<rparr>, None)"
proof -
  have "showBack m \<Longrightarrow> m\<lparr>showBack := True\<rparr> = m"
    by (cases m) simp
  then show ?thesis using assms by (auto simp: Update_key_enter)
qed

theorem reveal_idempotent_witness:
  "state (revealed101\<lparr>showBack := False\<rparr>) = stateDisplayingCard
   \<and> Update (revealed101\<lparr>showBack := False\<rparr>) (KeyMsg ''enter'') = Inr (revealed101, None)
   \<and> Update revealed101 (KeyMsg ''enter'') = Inr (revealed101, None)"
  using reveal_idempotent[of "revealed101\<lparr>showBack := False\<rparr>"]
  by (simp add: revealed101_def InitialModel_def)

subsection \<open>Totality of \<^verbatim>\<open>View\<close>\<close>

lemma View_no_card:
  assumes "\<not> quitting m" "state m = stateDisplayingCard"
    "\<not> (0 < len (cards m) \<and> sint (currentCardIndex m) < len (cards m))"
  shows "View JoinVertical rangeOrder m = Inr (JoinVertical [title (styles m) ''Anki Study TUI'', '''', ''''])"
  using assms by (auto simp add: View_def Let_def)

lemma View_other_phase:
  assumes "state m \<noteq> stateDisplayingCard"
  shows "\<exists>frame. View JoinVertical rangeOrder m = Inr frame"
  using assms by (cases "state m") (simp_all add: View_def)

lemma View_card:
  assumes "state m = stateDisplayingCard" "0 \<le> sint (currentCardIndex m)"
  shows "\<exists>frame. View JoinVertical rangeOrder m = Inr frame"
proof (cases "quitting m")
  case True
  then show ?thesis by (simp add: View_def)
next
  case False
  show ?thesis
  proof (cases "0 < len (cards m) \<and> sint (currentCardIndex m) < len (cards m)")
    case True
    then have "elem_at (cards m) (currentCardIndex m) = Inr (cards m ! nat (sint (currentCardIndex m)))"
      using assms(2) by (simp add: elem_at_def)
    then show ?thesis using assms(1) True False by (simp add: View_def Let_def)
  next
    case nc: False
    show ?thesis using View_no_card[OF False assms(1) nc] by blast
  qed
qed

text \<open>
  C10, as amended. \<^verbatim>\<open>View\<close> returns a frame for every model whose cursor is not negative
  while the phase is Reviewing, whatever the order of the map and the join function; and
  in phase Reviewing with the cursor at or past the end of the card list, the frame is
  the header with an empty status and an empty body: no card is read.
\<close>

theorem View_total:
  assumes "state m = stateDisplayingCard \<longrightarrow> 0 \<le> sint (currentCardIndex m)"
  shows "(\<exists>frame. View JoinVertical rangeOrder m = Inr frame)
       \<and> (\<not> quitting m \<and> state m = stateDisplayingCard
            \<and> len (cards m) \<le> sint (currentCardIndex m)
          \<longrightarrow> View JoinVertical rangeOrder m
                = Inr (JoinVertical [title (styles m) ''Anki Study TUI'', '''', '''']))"
proof
  show "\<exists>frame. View JoinVertical rangeOrder m = Inr frame"
    using assms View_card View_other_phase by blast
  show "\<not> quitting m \<and> state m = stateDisplayingCard \<and> len (cards m) \<le> sint (currentCardIndex m)
          \<longrightarrow> View JoinVertical rangeOrder m
                = Inr (JoinVertical [title (styles m) ''Anki Study TUI'', '''', ''''])"
    using View_no_card[of m JoinVertical rangeOrder] by simp
qed

theorem View_total_witness:
  "state (revealed101\<lparr>currentCardIndex := 1\<rparr>) = stateDisplayingCard
   \<and> 0 \<le> sint (currentCardIndex (revealed101\<lparr>currentCardIndex := 1\<rparr>))
   \<and> len (cards (revealed101\<lparr>currentCardIndex := 1\<rparr>))
        \<le> sint (currentCardIndex (revealed101\<lparr>currentCardIndex := 1\<rparr>))
   \<and> View join_lines [1, 3] (revealed101\<lparr>currentCardIndex := 1\<rparr>)
        = Inr (''Anki Study TUI'' @ nl @ nl)"
  using View_total[of "revealed101\<lparr>currentCardIndex := 1\<rparr>" join_lines "[1, 3]"]
  by (simp add: revealed101_fields len_def plain_def)

text \<open>
  C10 as stated fails: the guard of \<^verbatim>\<open>View\<close> has no lower bound. With card 101 loaded, phase
  Reviewing and the cursor at -1, the guard \<^verbatim>\<open>len(m.cards) > 0 && m.currentCardIndex <
  len(m.cards)\<close> holds and \<^verbatim>\<open>m.cards[m.currentCardIndex]\<close> panics.
\<close>

theorem View_negative_cursor_panics:
  "state (revealed101\<lparr>currentCardIndex := - 1\<rparr>) = stateDisplayingCard
   \<and> 0 < len (cards (revealed101\<lparr>currentCardIndex := - 1\<rparr>))
   \<and> sint (currentCardIndex (revealed101\<lparr>currentCardIndex := - 1\<rparr>))
        < len (cards (revealed101\<lparr>currentCardIndex := - 1\<rparr>))
   \<and> View join_lines [1, 3] (revealed101\<lparr>currentCardIndex := - 1\<rparr>) = Inl IndexOutOfRange"
  by (simp add: View_def revealed101_fields len_def elem_at_def)

text \<open>Every program the loop reaches is rendered, and no message makes \<^verbatim>\<open>Update\<close> panic
  there.\<close>

theorem reachable_no_panic:
  assumes "run evs (start sty) = Some p"
  shows "(\<exists>frame. View JoinVertical rangeOrder (mdl p) = Inr frame)
       \<and> (\<exists>m' c. Update (mdl p) mg = Inr (m', c))"
proof
  have c: "consistent p" using assms by (rule reachable_consistent)
  then have nn: "state (mdl p) = stateDisplayingCard \<longrightarrow> 0 \<le> sint (currentCardIndex (mdl p))"
    by (simp add: consistent_def)
  then show "\<exists>frame. View JoinVertical rangeOrder (mdl p) = Inr frame"
    using View_card View_other_phase by blast
  show "\<exists>m' c. Update (mdl p) mg = Inr (m', c)"
  proof (cases mg)
    case (KeyMsg k)
    show ?thesis
    proof (cases "k \<in> {''1'', ''2'', ''3'', ''4''}")
      case True
      then obtain e where e: "Atoi k = Inr e" using ease_key_Atoi by blast
      have "elem_at (cards (mdl p)) (currentCardIndex (mdl p))
              = Inr (cards (mdl p) ! nat (sint (currentCardIndex (mdl p))))"
        if "state (mdl p) = stateDisplayingCard"
        using that c by (simp add: consistent_def elem_at_def)
      then show ?thesis using KeyMsg by (simp add: Update_key_ease[OF True e])
    next
      case False
      then show ?thesis using KeyMsg by (simp add: Update_key_def Let_def)
    qed
  qed (simp_all add: Let_def)
qed

theorem reachable_no_panic_witness:
  "run [Completes FetchDueCardsCmd serving101, KeyPress ''enter''] (start plain)
     = Some \<lparr>mdl = revealed101, tasks = []\<rparr>
   \<and> (\<exists>frame. View join_lines [1, 3] revealed101 = Inr frame)
   \<and> (\<exists>m' c. Update revealed101 (KeyMsg ''3'') = Inr (m', c))"
  using reachable_no_panic[OF run_revealed101, of join_lines "[1, 3]" "KeyMsg ''3''"] run_revealed101
  by simp

subsection \<open>Failures of \<^verbatim>\<open>postAnkiConnect\<close>\<close>

text \<open>
  C4, as amended. When the request is marshalled, \<^verbatim>\<open>postAnkiConnect\<close> returns a failure
  for a POST that fails (the endpoint is not reachable), for a body that cannot be read,
  for a body that cannot be decoded and for a decoded response whose \<^verbatim>\<open>error\<close> field is
  not nil; the texts of these failures (and of a request that cannot be marshalled) are
  pairwise different, whatever the cause inside them. The status code is not read: a
  response whose body decodes with a nil \<^verbatim>\<open>error\<close> field returns its result, whatever
  its status.
\<close>

theorem postAnkiConnect_failures:
  assumes "json_Marshal w \<lparr>Action = action, Version = version, Params = ps\<rparr> = Inr reqBody"
  shows "(http_Post w ankiConnectURL_const ''application/json'' reqBody = Inl e \<longrightarrow>
            postAnkiConnect w action version ps =
              Inl (''failed to connect to AnkiConnect at http://localhost:8765: '' @ e @ nl
                     @ ''Ensure Anki is running and AnkiConnect add-on is installed.''))
       \<and> (http_Post w ankiConnectURL_const ''application/json'' reqBody = Inr resp \<longrightarrow>
            (Body resp = Inl e \<longrightarrow>
               postAnkiConnect w action version ps = Inl (''failed to read response body: '' @ e))
          \<and> (Body resp = Inr body \<longrightarrow>
               (json_Unmarshal w body = Inl e \<longrightarrow>
                  postAnkiConnect w action version ps =
                    Inl (''failed to unmarshal AnkiConnect response: '' @ e))
             \<and> (json_Unmarshal w body = Inr ankiResp \<longrightarrow>
                  (Error ankiResp = Some j \<longrightarrow>
                     postAnkiConnect w action version ps = Inl (''AnkiConnect error: '' @ fmt_v w j))
                \<and> (Error ankiResp = None \<longrightarrow>
                     postAnkiConnect w action version ps = Inr (Result ankiResp)))))
       \<and> distinct
            [''failed to connect to AnkiConnect at http://localhost:8765: '' @ e1 @ nl
               @ ''Ensure Anki is running and AnkiConnect add-on is installed.'',
             ''failed to read response body: '' @ e2,
             ''failed to unmarshal AnkiConnect response: '' @ e3,
             ''AnkiConnect error: '' @ e4,
             ''failed to marshal request: '' @ e5]"
proof (intro conjI impI)
  show "distinct
            [''failed to connect to AnkiConnect at http://localhost:8765: '' @ e1 @ nl
               @ ''Ensure Anki is running and AnkiConnect add-on is installed.'',
             ''failed to read response body: '' @ e2,
             ''failed to unmarshal AnkiConnect response: '' @ e3,
             ''AnkiConnect error: '' @ e4,
             ''failed to marshal request: '' @ e5]"
    by simp
qed (simp_all add: postAnkiConnect_def assms ankiConnectURL_const_def)

theorem postAnkiConnect_failures_witness:
  "json_Marshal refusing \<lparr>Action = ''findCards'', Version = 6, Params = findCardsParams ''is:due''\<rparr>
     = Inr ''findCards''
   \<and> http_Post refusing ankiConnectURL_const ''application/json'' ''findCards''
     = Inl ''connect: connection refused''
   \<and> postAnkiConnect refusing ''findCards'' 6 (findCardsParams ''is:due'') =
       Inl (''failed to connect to AnkiConnect at http://localhost:8765: ''
              @ ''connect: connection refused'' @ nl
              @ ''Ensure Anki is running and AnkiConnect add-on is installed.'')"
  using postAnkiConnect_failures[of refusing "''findCards''" 6 "findCardsParams ''is:due''"
      "''findCards''" "''connect: connection refused''"]
  by (simp add: refusing_def answering_def)

text \<open>
  C4 as stated fails: a response with status 500 whose body decodes with a nil
  \<^verbatim>\<open>error\<close> field is returned as a result, not as a failure.
\<close>

theorem status_500_is_success:
  "http_Post (answering 500 (JArray []) JNull None) ankiConnectURL_const ''application/json''
     ''findCards'' = Inr \<lparr>StatusCode = 500, Body = Inr ''findCards''\<rparr>
   \<and> postAnkiConnect (answering 500 (JArray []) JNull None) ''findCards'' 6
       (findCardsParams ''is:due'') = Inr (JArray [])"
  by (simp add: postAnkiConnect_def answering_def)

subsection \<open>Failure of the initial fetch\<close>

lemma fetch_first_call_fails:
  assumes "postAnkiConnect w ''findCards'' 6 (findCardsParams ''is:due'') = Inl e"
  shows "fetchDueCardsCmd w = errMsg (''failed to find due cards: '' @ e)"
  using assms by (simp add: fetchDueCardsCmd_def)

lemma fetch_second_call_fails:
  assumes "postAnkiConnect w ''findCards'' 6 (findCardsParams ''is:due'') = Inr r"
    "as_slice w r = Some ids" "cardIDs_of w ids \<noteq> []"
    "postAnkiConnect w ''cardsInfo'' 6 (cardsInfoParams (cardIDs_of w ids)) = Inl e"
  shows "fetchDueCardsCmd w = errMsg (''failed to get cards info: '' @ e)"
  using assms by (simp add: fetchDueCardsCmd_def len_def)

lemma fetch_error_delivered:
  assumes "consistent p" "FetchDueCardsCmd \<in> set (tasks p)" "fetchDueCardsCmd w = errMsg x"
  shows "step (Completes FetchDueCardsCmd w) p
           = Some \<lparr>mdl = (mdl p)\<lparr>err := Some x, state := stateError\<rparr>, tasks = []\<rparr>
         \<and> cards (mdl p) = []"
  using assms by (simp add: consistent_def deliver_def dispatched_def)

text \<open>
  C7. While the initial fetch is outstanding, let one of its two network calls fail with
  the error \<open>e\<close>: \<^verbatim>\<open>findCards\<close>, or \<^verbatim>\<open>cardsInfo\<close> after \<^verbatim>\<open>findCards\<close> returned
  identifiers. Then the task sends \<^verbatim>\<open>errMsg\<close> with \<open>e\<close> wrapped in the context of the
  call, and processing that message gives phase Failed, with exactly the error of the
  message in \<^verbatim>\<open>m.err\<close>, no card loaded and no task outstanding.
\<close>

theorem fetch_failure_reported:
  assumes "run evs (start sty) = Some p" "FetchDueCardsCmd \<in> set (tasks p)"
    and "(postAnkiConnect w ''findCards'' 6 (findCardsParams ''is:due'') = Inl e
            \<and> ctx = ''failed to find due cards: '')
       \<or> (\<exists>r ids. postAnkiConnect w ''findCards'' 6 (findCardsParams ''is:due'') = Inr r
            \<and> as_slice w r = Some ids \<and> cardIDs_of w ids \<noteq> []
            \<and> postAnkiConnect w ''cardsInfo'' 6 (cardsInfoParams (cardIDs_of w ids)) = Inl e
            \<and> ctx = ''failed to get cards info: '')"
  shows "fetchDueCardsCmd w = errMsg (ctx @ e)
       \<and> (\<exists>p'. step (Completes FetchDueCardsCmd w) p = Some p'
            \<and> state (mdl p') = stateError \<and> err (mdl p') = Some (ctx @ e)
            \<and> cards (mdl p') = [] \<and> tasks p' = [])"
proof -
  from assms(3) have m: "fetchDueCardsCmd w = errMsg (ctx @ e)"
  proof (elim disjE conjE exE)
    assume a: "postAnkiConnect w ''findCards'' 6 (findCardsParams ''is:due'') = Inl e"
      and c: "ctx = ''failed to find due cards: ''"
    show ?thesis unfolding c by (rule fetch_first_call_fails[OF a])
  next
    fix r ids
    assume a: "postAnkiConnect w ''findCards'' 6 (findCardsParams ''is:due'') = Inr r"
      "as_slice w r = Some ids" "cardIDs_of w ids \<noteq> []"
      "postAnkiConnect w ''cardsInfo'' 6 (cardsInfoParams (cardIDs_of w ids)) = Inl e"
      and c: "ctx = ''failed to get cards info: ''"
    show ?thesis unfolding c by (rule fetch_second_call_fails[OF a])
  qed
  have "consistent p" using assms(1) by (rule reachable_consistent)
  from fetch_error_delivered[OF this assms(2) m]
  have s: "step (Completes FetchDueCardsCmd w) p
             = Some \<lparr>mdl = (mdl p)\<lparr>err := Some (ctx @ e), state := stateError\<rparr>, tasks = []\<rparr>"
    and c: "cards (mdl p) = []"
    by simp_all
  have "\<exists>p'. step (Completes FetchDueCardsCmd w) p = Some p'
            \<and> state (mdl p') = stateError \<and> err (mdl p') = Some (ctx @ e)
            \<and> cards (mdl p') = [] \<and> tasks p' = []"
    unfolding s using c by simp
  with m show ?thesis by (rule conjI)
qed

theorem fetch_failure_reported_witness:
  "run [KeyPress ''enter'' :: jval event] (start plain) = Some (start plain)
   \<and> FetchDueCardsCmd \<in> set (tasks (start plain))
   \<and> postAnkiConnect
        (answering 200 (JArray [JNumber 101]) JNull (Some (JString ''collection is not available'')))
        ''findCards'' 6 (findCardsParams ''is:due'')
       = Inl ''AnkiConnect error: collection is not available''
   \<and> fetchDueCardsCmd
        (answering 200 (JArray [JNumber 101]) JNull (Some (JString ''collection is not available'')))
       = errMsg ''failed to find due cards: AnkiConnect error: collection is not available''
   \<and> map_option observe
        (step (Completes FetchDueCardsCmd
                 (answering 200 (JArray [JNumber 101]) JNull
                    (Some (JString ''collection is not available''))))
           (start plain))
       = Some (stateError, 0, 0, False, [])"
proof -
  let ?w = "answering 200 (JArray [JNumber 101]) JNull (Some (JString ''collection is not available''))"
  have r: "run [KeyPress ''enter'' :: jval event] (start plain) = Some (start plain)"
    by (simp add: start_def Init_def InitialModel_def deliver_def dispatched_def Update_key_enter)
  have t: "FetchDueCardsCmd \<in> set (tasks (start plain))"
    by (simp add: start_def Init_def dispatched_def)
  have f: "postAnkiConnect ?w ''findCards'' 6 (findCardsParams ''is:due'')
             = Inl ''AnkiConnect error: collection is not available''"
    by (simp add: postAnkiConnect_def answering_def)
  have m: "fetchDueCardsCmd ?w
             = errMsg ''failed to find due cards: AnkiConnect error: collection is not available''"
    using fetch_failure_reported[OF r t, of ?w "''AnkiConnect error: collection is not available''"
      "''failed to find due cards: ''"] f
    by simp
  have "map_option observe (step (Completes FetchDueCardsCmd ?w) (start plain))
          = Some (stateError, 0, 0, False, [])"
    by (simp add: m start_def Init_def InitialModel_def deliver_def dispatched_def observe_def
        len_def)
  with r t f m show ?thesis by simp
qed

subsection \<open>Outstanding tasks\<close>

lemma Update_msg_no_cmd:
  assumes "Update m mg = Inr (m', c)" "\<And>k. mg \<noteq> KeyMsg k"
  shows "c = None"
  using assms by (cases mg) (auto simp: Let_def split: if_splits)

lemma step_tasks:
  assumes "step e p = Some p'"
  shows "tasks p' = tasks p
       \<or> (\<exists>c. c \<in> set (tasks p) \<and> tasks p' = remove1 c (tasks p))
       \<or> (\<exists>k x ease. e = KeyPress k \<and> state (mdl p) = stateDisplayingCard \<and> showBack (mdl p)
             \<and> elem_at (cards (mdl p)) (currentCardIndex (mdl p)) = Inr x
             \<and> EaseOptions x ease \<noteq> None
             \<and> tasks p' = tasks p @ [AnswerCardCmd (ID x) ease])"
proof (cases e)
  case (KeyPress k)
  then obtain m' c where u: "Update_key (mdl p) k = Inr (m', c)"
    and p': "p' = \<lparr>mdl = m', tasks = tasks p @ dispatched c\<rparr>"
    using assms by (auto simp: deliver_def split: sum.splits)
  from Update_key_cases[OF u] show ?thesis
  proof (elim disjE conjE exE)
    fix x ease
    assume "state (mdl p) = stateDisplayingCard" "showBack (mdl p)"
      "elem_at (cards (mdl p)) (currentCardIndex (mdl p)) = Inr x" "EaseOptions x ease \<noteq> None"
      "c = Some (AnswerCardCmd (ID x) ease)"
    then have "e = KeyPress k \<and> state (mdl p) = stateDisplayingCard \<and> showBack (mdl p)
             \<and> elem_at (cards (mdl p)) (currentCardIndex (mdl p)) = Inr x
             \<and> EaseOptions x ease \<noteq> None
             \<and> tasks p' = tasks p @ [AnswerCardCmd (ID x) ease]"
      using p' KeyPress by (simp add: dispatched_def)
    then show ?thesis by blast
  qed (simp_all add: p' dispatched_def)
next
  case (Completes c w)
  then have mem: "c \<in> set (tasks p)"
    and d: "deliver (remove1 c (tasks p)) (Update (mdl p) (run_Cmd w c)) = Some p'"
    using assms by (simp_all split: if_splits)
  from d obtain m' c' where u: "Update (mdl p) (run_Cmd w c) = Inr (m', c')"
    and p': "p' = \<lparr>mdl = m', tasks = remove1 c (tasks p) @ dispatched c'\<rparr>"
    by (auto simp: deliver_def split: sum.splits)
  have "run_Cmd w c \<noteq> KeyMsg k" for k
  proof (cases c)
    case tea_Quit
    then show ?thesis by simp
  next
    case FetchDueCardsCmd
    then show ?thesis using fetch_msg_cases[of w] by auto
  next
    case (AnswerCardCmd cardID ease)
    then show ?thesis using answer_msg_cases[of w cardID ease] by auto
  qed
  from Update_msg_no_cmd[OF u this] have "tasks p' = remove1 c (tasks p)"
    using p' by (simp add: dispatched_def)
  then show ?thesis using mem by blast
next
  case Other
  then show ?thesis using assms by (auto simp: deliver_def dispatched_def)
qed

text \<open>
  C3, as amended. In every program the loop reaches, a fetch that is outstanding is the
  only outstanding task; and a turn of the loop leaves the outstanding tasks as they
  are, or removes the one that completed, or adds one answer call, which happens only on
  a key press in phase Reviewing with the back revealed, for the current card and an ease
  value among its \<^verbatim>\<open>EaseOptions\<close>. (Nothing in this depends on whether an answer call is
  already outstanding.)
\<close>

theorem outstanding_tasks:
  assumes "run evs (start sty) = Some p"
  shows "(FetchDueCardsCmd \<in> set (tasks p) \<longrightarrow> tasks p = [FetchDueCardsCmd])
       \<and> (\<forall>e p'. step e p = Some p' \<longrightarrow>
            tasks p' = tasks p
          \<or> (\<exists>c. c \<in> set (tasks p) \<and> tasks p' = remove1 c (tasks p))
          \<or> (\<exists>k x ease. e = KeyPress k \<and> state (mdl p) = stateDisplayingCard
                \<and> showBack (mdl p)
                \<and> elem_at (cards (mdl p)) (currentCardIndex (mdl p)) = Inr x
                \<and> EaseOptions x ease \<noteq> None
                \<and> tasks p' = tasks p @ [AnswerCardCmd (ID x) ease]))"
proof
  have "consistent p" using assms by (rule reachable_consistent)
  then show "FetchDueCardsCmd \<in> set (tasks p) \<longrightarrow> tasks p = [FetchDueCardsCmd]"
    by (simp add: consistent_def)
  show "\<forall>e p'. step e p = Some p' \<longrightarrow>
            tasks p' = tasks p
          \<or> (\<exists>c. c \<in> set (tasks p) \<and> tasks p' = remove1 c (tasks p))
          \<or> (\<exists>k x ease. e = KeyPress k \<and> state (mdl p) = stateDisplayingCard
                \<and> showBack (mdl p)
                \<and> elem_at (cards (mdl p)) (currentCardIndex (mdl p)) = Inr x
                \<and> EaseOptions x ease \<noteq> None
                \<and> tasks p' = tasks p @ [AnswerCardCmd (ID x) ease])"
    using step_tasks by blast
qed

lemma key3_revealed101:
  "step (KeyPress ''3'') \<lparr>mdl = revealed101, tasks = ts\<rparr>
     = Some \<lparr>mdl = revealed101, tasks = ts @ [AnswerCardCmd 101 3]\<rparr>"
proof -
  have "Update_key revealed101 ''3'' = Inr (revealed101, Some (AnswerCardCmd 101 3))"
    by (subst Update_key_ease[where ease = 3])
      (simp_all add: Atoi_ease revealed101_fields elem_at_def len_def card101)
  then show ?thesis by (simp add: deliver_def dispatched_def)
qed

theorem outstanding_tasks_witness:
  "run [Completes FetchDueCardsCmd serving101, KeyPress ''enter''] (start plain)
     = Some \<lparr>mdl = revealed101, tasks = []\<rparr>
   \<and> step (KeyPress ''3'' :: jval event) \<lparr>mdl = revealed101, tasks = []\<rparr>
     = Some \<lparr>mdl = revealed101, tasks = [AnswerCardCmd 101 3]\<rparr>
   \<and> state revealed101 = stateDisplayingCard \<and> showBack revealed101
   \<and> elem_at (cards revealed101) (currentCardIndex revealed101) = Inr (mkCard info101)
   \<and> EaseOptions (mkCard info101) 3 = Some ''Good''
   \<and> ID (mkCard info101) = 101"
  using outstanding_tasks[OF run_revealed101] run_revealed101 key3_revealed101[of "[]"]
  by (simp add: revealed101_fields elem_at_def len_def card101)

lemma run_snoc:
  "run es p = Some q \<Longrightarrow> run (es @ [e]) p = step e q"
  by (induction es arbitrary: p) (auto split: option.splits)

lemma run_answer_dispatched:
  "run [Completes FetchDueCardsCmd serving101, KeyPress ''enter'', KeyPress ''3''] (start plain)
     = Some \<lparr>mdl = revealed101, tasks = [AnswerCardCmd 101 3]\<rparr>"
  using run_snoc[OF run_revealed101, of "KeyPress ''3''"] key3_revealed101[of "[]"]
  by simp

text \<open>
  C3 as stated fails: with card 101 revealed, the key 3 pressed twice dispatches two
  answer calls, and both are outstanding at once.
\<close>

theorem two_answer_calls_outstanding:
  "map_option observe
     (run [Completes FetchDueCardsCmd serving101, KeyPress ''enter'', KeyPress ''3'']
        (start plain))
     = Some (stateDisplayingCard, 0, 1, True, [AnswerCardCmd 101 3])
   \<and> map_option observe
     (run [Completes FetchDueCardsCmd serving101, KeyPress ''enter'', KeyPress ''3'',
           KeyPress ''3''] (start plain))
     = Some (stateDisplayingCard, 0, 1, True, [AnswerCardCmd 101 3, AnswerCardCmd 101 3])"
proof -
  have "run [Completes FetchDueCardsCmd serving101, KeyPress ''enter'', KeyPress ''3'',
           KeyPress ''3''] (start plain)
      = Some \<lparr>mdl = revealed101, tasks = [AnswerCardCmd 101 3, AnswerCardCmd 101 3]\<rparr>"
    using run_snoc[OF run_answer_dispatched, of "KeyPress ''3''"]
      key3_revealed101[of "[AnswerCardCmd 101 3]"]
    by simp
  then show ?thesis
    by (simp only: run_answer_dispatched) (simp add: observe_def revealed101_fields len_def)
qed

subsection \<open>The cursor\<close>

lemma step_cursor:
  assumes "consistent p" "step e p = Some p'"
  shows "(currentCardIndex (mdl p') = currentCardIndex (mdl p) \<and> cards (mdl p') = cards (mdl p)
            \<and> (state (mdl p') = state (mdl p) \<or> state (mdl p') = stateError))
       \<or> (mdl p' = advance (mdl p)
            \<and> (state (mdl p) = stateDisplayingCard \<or> is_cardAnswered (delivered e)))
       \<or> (state (mdl p) = stateLoading \<and> currentCardIndex (mdl p') = 0)"
proof (cases e)
  case (KeyPress k)
  then obtain m' c where u: "Update_key (mdl p) k = Inr (m', c)"
    and p': "p' = \<lparr>mdl = m', tasks = tasks p @ dispatched c\<rparr>"
    using assms(2) by (auto simp: deliver_def split: sum.splits)
  from Update_key_cases[OF u] show ?thesis
    by (elim disjE conjE exE) (simp_all add: p')
next
  case (Completes c w)
  then have mem: "c \<in> set (tasks p)"
    and d: "deliver (remove1 c (tasks p)) (Update (mdl p) (run_Cmd w c)) = Some p'"
    using assms(2) by (simp_all split: if_splits)
  show ?thesis
  proof (cases c)
    case tea_Quit
    then show ?thesis using d by (auto simp: deliver_def)
  next
    case FetchDueCardsCmd
    with assms(1) mem have l: "state (mdl p) = stateLoading" "currentCardIndex (mdl p) = 0"
      by (simp_all add: consistent_def)
    from fetch_msg_cases[of w] have "currentCardIndex (mdl p') = 0"
      using d FetchDueCardsCmd l(2) by (auto simp: deliver_def split: if_splits)
    then show ?thesis using l by simp
  next
    case (AnswerCardCmd cardID ease)
    from answer_msg_cases[of w cardID ease] show ?thesis
    proof (elim disjE exE)
      fix x assume "answerCardCmd w cardID ease = errMsg x"
      then show ?thesis using d AnswerCardCmd by (auto simp: deliver_def)
    next
      assume a: "answerCardCmd w cardID ease = cardAnsweredMsg cardID ease"
      then have "mdl p' = advance (mdl p)"
        using d AnswerCardCmd by (auto simp: deliver_def Update_answered simp del: Update.simps)
      moreover have "is_cardAnswered (delivered e)"
        using a Completes AnswerCardCmd by simp
      ultimately show ?thesis by simp
    qed
  qed
next
  case Other
  then show ?thesis using assms(2) by (auto simp: deliver_def)
qed

lemma advance_reviewing:
  assumes "consistent p" "state (mdl p) = stateDisplayingCard"
  shows "sint (currentCardIndex (advance (mdl p))) = sint (currentCardIndex (mdl p)) + 1"
    and "state (advance (mdl p)) = stateNoCards
           \<longleftrightarrow> sint (currentCardIndex (advance (mdl p))) = len (cards (advance (mdl p)))"
proof -
  have b: "sint (currentCardIndex (mdl p)) < len (cards (mdl p))" "len (cards (mdl p)) < 2 ^ 63"
    using assms by (simp_all add: consistent_def)
  then have s: "sint (currentCardIndex (mdl p) + 1) = sint (currentCardIndex (mdl p)) + 1"
    by (rule sint_succ_reviewing)
  then show "sint (currentCardIndex (advance (mdl p))) = sint (currentCardIndex (mdl p)) + 1"
    by (simp add: advance_frame)
  show "state (advance (mdl p)) = stateNoCards
           \<longleftrightarrow> sint (currentCardIndex (advance (mdl p))) = len (cards (advance (mdl p)))"
    using b(1) s assms(2) by (auto simp add: advance_frame advance_state)
qed

lemma cursor_monotone:
  assumes "consistent p" "step e p = Some p'"
    and "state (mdl p) = stateDisplayingCard \<or> \<not> is_cardAnswered (delivered e)"
  shows "sint (currentCardIndex (mdl p)) \<le> sint (currentCardIndex (mdl p'))"
proof -
  from step_cursor[OF assms(1,2)]
  consider (same) "currentCardIndex (mdl p') = currentCardIndex (mdl p)"
    | (adv) "mdl p' = advance (mdl p)"
        "state (mdl p) = stateDisplayingCard \<or> is_cardAnswered (delivered e)"
    | (load) "state (mdl p) = stateLoading" "currentCardIndex (mdl p') = 0"
    by blast
  then show ?thesis
  proof cases
    case same
    then show ?thesis by simp
  next
    case adv
    with assms(3) have "state (mdl p) = stateDisplayingCard" by blast
    from advance_reviewing(1)[OF assms(1) this] adv(1) show ?thesis by simp
  next
    case load
    then show ?thesis using assms(1) by (simp add: consistent_def)
  qed
qed

lemma exhausted_after_reviewing:
  assumes "consistent p" "step e p = Some p'" "state (mdl p) = stateDisplayingCard"
  shows "state (mdl p') = stateNoCards
           \<longleftrightarrow> sint (currentCardIndex (mdl p')) = len (cards (mdl p'))"
proof -
  have b: "sint (currentCardIndex (mdl p)) < len (cards (mdl p))"
    using assms(1,3) by (simp add: consistent_def)
  from step_cursor[OF assms(1,2)] assms(3)
  consider (same) "currentCardIndex (mdl p') = currentCardIndex (mdl p)"
        "cards (mdl p') = cards (mdl p)"
        "state (mdl p') = stateDisplayingCard \<or> state (mdl p') = stateError"
    | (adv) "mdl p' = advance (mdl p)"
    by auto
  then show ?thesis
  proof cases
    case same
    then show ?thesis using b by auto
  next
    case adv
    then show ?thesis using advance_reviewing(2)[OF assms(1,3)] by simp
  qed
qed

text \<open>
  C1, as amended. In every program the loop reaches: in phase Loading the cursor is 0 and
  no card is loaded; in phase Reviewing the cursor is at least 0 and below the number of
  cards; a turn of the loop does not decrease the cursor, unless it is the message of a
  successful answer call processed outside phase Reviewing (of which nothing is said);
  and after a turn taken in phase Reviewing the phase is Exhausted if and only if the
  cursor equals the number of cards.
\<close>

theorem cursor_invariant:
  assumes "run evs (start sty) = Some p"
  shows "(state (mdl p) = stateLoading \<longrightarrow>
            currentCardIndex (mdl p) = 0 \<and> cards (mdl p) = [])
       \<and> (state (mdl p) = stateDisplayingCard \<longrightarrow>
            0 \<le> sint (currentCardIndex (mdl p))
            \<and> sint (currentCardIndex (mdl p)) < len (cards (mdl p)))
       \<and> (\<forall>e p'. step e p = Some p'
              \<and> (state (mdl p) = stateDisplayingCard \<or> \<not> is_cardAnswered (delivered e))
            \<longrightarrow> sint (currentCardIndex (mdl p)) \<le> sint (currentCardIndex (mdl p')))
       \<and> (\<forall>e p'. step e p = Some p' \<and> state (mdl p) = stateDisplayingCard
            \<longrightarrow> (state (mdl p') = stateNoCards
                   \<longleftrightarrow> sint (currentCardIndex (mdl p')) = len (cards (mdl p'))))"
proof -
  have c: "consistent p" using assms by (rule reachable_consistent)
  have "state (mdl p) = stateLoading \<longrightarrow> currentCardIndex (mdl p) = 0 \<and> cards (mdl p) = []"
    using c by (simp add: consistent_def)
  moreover have "state (mdl p) = stateDisplayingCard \<longrightarrow>
            0 \<le> sint (currentCardIndex (mdl p))
            \<and> sint (currentCardIndex (mdl p)) < len (cards (mdl p))"
    using c by (simp add: consistent_def)
  moreover have "\<forall>e p'. step e p = Some p'
              \<and> (state (mdl p) = stateDisplayingCard \<or> \<not> is_cardAnswered (delivered e))
            \<longrightarrow> sint (currentCardIndex (mdl p)) \<le> sint (currentCardIndex (mdl p'))"
    using cursor_monotone[OF c] by blast
  moreover have "\<forall>e p'. step e p = Some p' \<and> state (mdl p) = stateDisplayingCard
            \<longrightarrow> (state (mdl p') = stateNoCards
                   \<longleftrightarrow> sint (currentCardIndex (mdl p')) = len (cards (mdl p')))"
    using exhausted_after_reviewing[OF c] by blast
  ultimately show ?thesis by (intro conjI)
qed

lemma skip_revealed101:
  "step (KeyPress ''n'') \<lparr>mdl = revealed101, tasks = ts\<rparr>
     = Some \<lparr>mdl = revealed101\<lparr>currentCardIndex := 1, showBack := False, state := stateNoCards\<rparr>,
             tasks = ts\<rparr>"
  by (simp add: Update_key_skip advance_def revealed101_fields len_def deliver_def dispatched_def)

theorem cursor_invariant_witness:
  "run [Completes FetchDueCardsCmd serving101, KeyPress ''enter''] (start plain)
     = Some \<lparr>mdl = revealed101, tasks = []\<rparr>
   \<and> state revealed101 = stateDisplayingCard
   \<and> sint (currentCardIndex revealed101) = 0 \<and> len (cards revealed101) = 1
   \<and> map_option observe (step (KeyPress ''n'' :: jval event) \<lparr>mdl = revealed101, tasks = []\<rparr>)
       = Some (stateNoCards, 1, 1, False, [])"
  using cursor_invariant[OF run_revealed101] run_revealed101
    skip_revealed101[of "[]", where ?'a = jval]
  by (simp add: revealed101_fields len_def observe_def)

text \<open>
  C1 as stated fails. With card 101 revealed, the key 3 dispatches an answer call and the
  key n skips the card before the call completes: the program is in phase Exhausted with
  the cursor at 1, the number of cards. The message of the answer call then moves the
  cursor to 2, above the number of cards, in phase Exhausted. (At the start, in phase
  Loading, the cursor equals the number of cards, 0, and the phase is not Exhausted.)
\<close>

theorem cursor_past_the_end:
  "observe (start plain) = (stateLoading, 0, 0, False, [FetchDueCardsCmd])
   \<and> map_option observe
       (run [Completes FetchDueCardsCmd serving101, KeyPress ''enter'', KeyPress ''3'',
             KeyPress ''n''] (start plain))
       = Some (stateNoCards, 1, 1, False, [AnswerCardCmd 101 3])
   \<and> map_option observe
       (run [Completes FetchDueCardsCmd serving101, KeyPress ''enter'', KeyPress ''3'',
             KeyPress ''n'', Completes (AnswerCardCmd 101 3) serving101] (start plain))
       = Some (stateNoCards, 2, 1, False, [])"
proof -
  let ?m1 = "revealed101\<lparr>currentCardIndex := 1, showBack := False, state := stateNoCards\<rparr>"
  have a: "run [Completes FetchDueCardsCmd serving101, KeyPress ''enter'', KeyPress ''3'',
             KeyPress ''n''] (start plain) = Some \<lparr>mdl = ?m1, tasks = [AnswerCardCmd 101 3]\<rparr>"
    using run_snoc[OF run_answer_dispatched, of "KeyPress ''n''"]
      skip_revealed101[of "[AnswerCardCmd 101 3]"]
    by simp
  have "step (Completes (AnswerCardCmd 101 3) serving101) \<lparr>mdl = ?m1, tasks = [AnswerCardCmd 101 3]\<rparr>
      = Some \<lparr>mdl = ?m1\<lparr>currentCardIndex := 2\<rparr>, tasks = []\<rparr>"
    by (simp add: answer_serving101 deliver_def dispatched_def revealed101_fields len_def)
  then have b: "run [Completes FetchDueCardsCmd serving101, KeyPress ''enter'', KeyPress ''3'',
             KeyPress ''n'', Completes (AnswerCardCmd 101 3) serving101] (start plain)
      = Some \<lparr>mdl = ?m1\<lparr>currentCardIndex := 2\<rparr>, tasks = []\<rparr>"
    using run_snoc[OF a, of "Completes (AnswerCardCmd 101 3) serving101"] by simp
  have "observe (start plain) = (stateLoading, 0, 0, False, [FetchDueCardsCmd])"
    by (simp add: observe_def start_def Init_def InitialModel_def dispatched_def len_def)
  then show ?thesis
    by (simp only: a b) (simp add: observe_def revealed101_fields len_def)
qed

end
